theory Spec2Isabelle
  imports Complex_Main "HOL-Library.AList"
begin

section \<open>The fatigue calculator of src/lib/fatigue.ts\<close>

text \<open>
  Conventions of the embedding.
  \<^item> A TypeScript \<open>number\<close> that holds a quantity (fatigue, volume, rates, factors) is a
    \<open>real\<close>: the arithmetic is exact, without the rounding, NaN and infinities of IEEE
    doubles.
  \<^item> \<open>Date.now()\<close> is an explicit argument (\<open>now\<close>, integer milliseconds) of every
    method that reads the clock; nothing is assumed about successive readings unless a
    theorem says so.
  \<^item> \<open>Map<string, MuscleFatigue>\<close> is an association list in insertion order:
    \<open>Map.get\<close> is \<open>map_of\<close>, \<open>Map.set\<close> is \<open>AList.update\<close> (an existing key keeps its
    place, a new key goes to the end), \<open>Map.values()\<close> is \<open>map snd\<close>.
  \<^item> A method call reads the clock once: the calls of \<open>Date.now()\<close> that one call of
    \<open>getExerciseFatigue\<close> makes through \<open>getFatigueLevel\<close> return the same reading.
  \<^item> The static tables are looked up among their own twenty entries; the properties that
    a JavaScript object inherits (\<open>constructor\<close>, \<open>toString\<close>, ...) are not keys of the
    model.
  \<^item> \<open>Array.prototype.sort\<close> is stable, as ECMAScript 2019 requires.
\<close>

subsection \<open>Data\<close>

datatype difficulty = beginner | intermediate | advanced

record MuscleFatigue =
  muscleGroup :: string
  fatigueLevel :: real
  lastExerciseTime :: int
  totalVolume :: real
  exerciseCount :: nat
  recoveryRate :: real

record FatigueFactors =
  exerciseIntensity :: real
  exerciseVolume :: real
  exerciseDuration :: real
  restTime :: real
  factorsMuscleGroup :: string
  exerciseDifficulty :: difficulty

record FatigueCalculator =
  muscleFatigue :: "(string \<times> MuscleFatigue) list"
  workoutStartTime :: int

subsection \<open>Static tables\<close>

definition MUSCLE_FATIGUE_RATES :: "(string \<times> real) list" where
  "MUSCLE_FATIGUE_RATES =
    [(''Chest'', 15), (''Back'', 12), (''Shoulders'', 18), (''Biceps'', 20),
     (''Triceps'', 18), (''Legs'', 10), (''Core'', 8), (''Calves'', 25),
     (''Hamstrings'', 12), (''Quadriceps'', 10), (''Glutes'', 8), (''Forearms'', 30),
     (''Traps'', 15), (''Lats'', 12), (''Deltoids'', 18), (''Pectorals'', 15),
     (''Abdominals'', 8), (''Obliques'', 10), (''Lower Back'', 12), (''Upper Back'', 12)]"

definition MUSCLE_RECOVERY_RATES :: "(string \<times> real) list" where
  "MUSCLE_RECOVERY_RATES =
    [(''Chest'', 2.5), (''Back'', 3.0), (''Shoulders'', 2.0), (''Biceps'', 1.5),
     (''Triceps'', 2.0), (''Legs'', 4.0), (''Core'', 5.0), (''Calves'', 1.0),
     (''Hamstrings'', 3.0), (''Quadriceps'', 4.0), (''Glutes'', 4.5), (''Forearms'', 0.5),
     (''Traps'', 2.5), (''Lats'', 3.0), (''Deltoids'', 2.0), (''Pectorals'', 2.5),
     (''Abdominals'', 5.0), (''Obliques'', 4.0), (''Lower Back'', 3.0), (''Upper Back'', 3.0)]"

fun DIFFICULTY_MULTIPLIERS :: "difficulty \<Rightarrow> real" where
  "DIFFICULTY_MULTIPLIERS beginner = 0.8"
| "DIFFICULTY_MULTIPLIERS intermediate = 1.0"
| "DIFFICULTY_MULTIPLIERS advanced = 1.3"

text \<open>\<open>TABLE[key] || dflt\<close>: the default is taken when the key is missing, and also when
  the entry is the falsy number 0.\<close>

definition lookup_or :: "(string \<times> real) list \<Rightarrow> string \<Rightarrow> real \<Rightarrow> real" where
  "lookup_or table key dflt =
     (case map_of table key of
        None \<Rightarrow> dflt
      | Some v \<Rightarrow> if v = 0 then dflt else v)"

subsection \<open>The class\<close>

definition new_FatigueCalculator :: "int \<Rightarrow> FatigueCalculator" where
  "new_FatigueCalculator now = \<lparr>muscleFatigue = [], workoutStartTime = now\<rparr>"

definition calculateFatigueIncrease :: "FatigueFactors \<Rightarrow> real" where
  "calculateFatigueIncrease factors =
     (let baseRate = lookup_or MUSCLE_FATIGUE_RATES (factorsMuscleGroup factors) 10;
          difficultyMultiplier = DIFFICULTY_MULTIPLIERS (exerciseDifficulty factors);
          volumeFactor = min (exerciseVolume factors / 1000) 2.0;
          intensityFactor = exerciseIntensity factors * 1.5;
          durationFactor = min (exerciseDuration factors / 60) 1.5;
          restFactor = max (1.0 - restTime factors / 300) 0.5;
          fatigueIncrease =
            baseRate * difficultyMultiplier * volumeFactor * intensityFactor *
            durationFactor * restFactor
      in min fatigueIncrease 50)"

text \<open>The recovery of a record between its \<open>lastExerciseTime\<close> and \<open>currentTime\<close>; the
  three methods that decay a level compute it with the same two lines.\<close>

definition recovery :: "int \<Rightarrow> MuscleFatigue \<Rightarrow> real" where
  "recovery currentTime fatigue =
     (let timeSinceLastExercise =
            real_of_int (currentTime - lastExerciseTime fatigue) / 1000 / 60
      in timeSinceLastExercise * recoveryRate fatigue)"

definition updateFatigue :: "int \<Rightarrow> FatigueFactors \<Rightarrow> FatigueCalculator \<Rightarrow> FatigueCalculator" where
  "updateFatigue now factors this =
     (let mg = factorsMuscleGroup factors;
          currentTime = now;
          fatigue0 =
            (case map_of (muscleFatigue this) mg of
               Some fatigue \<Rightarrow> fatigue
             | None \<Rightarrow>
                 \<lparr>muscleGroup = mg, fatigueLevel = 0, lastExerciseTime = currentTime,
                  totalVolume = 0, exerciseCount = 0,
                  recoveryRate = lookup_or MUSCLE_RECOVERY_RATES mg 2.0\<rparr>);
          fatigue1 = fatigue0\<lparr>fatigueLevel :=
                       max 0 (fatigueLevel fatigue0 - recovery currentTime fatigue0)\<rparr>;
          fatigueIncrease = calculateFatigueIncrease factors;
          fatigue2 = fatigue1\<lparr>fatigueLevel := min 100 (fatigueLevel fatigue1 + fatigueIncrease)\<rparr>;
          fatigue3 = fatigue2\<lparr>lastExerciseTime := currentTime\<rparr>;
          fatigue4 = fatigue3\<lparr>totalVolume := totalVolume fatigue3 + exerciseVolume factors\<rparr>;
          fatigue5 = fatigue4\<lparr>exerciseCount := exerciseCount fatigue4 + 1\<rparr>
      in this\<lparr>muscleFatigue := AList.update mg fatigue5 (muscleFatigue this)\<rparr>)"

definition getFatigueLevel :: "int \<Rightarrow> string \<Rightarrow> FatigueCalculator \<Rightarrow> real" where
  "getFatigueLevel now mg this =
     (case map_of (muscleFatigue this) mg of
        None \<Rightarrow> 0
      | Some fatigue \<Rightarrow> max 0 (fatigueLevel fatigue - recovery now fatigue))"

definition getAllFatigueLevels :: "int \<Rightarrow> FatigueCalculator \<Rightarrow> MuscleFatigue list" where
  "getAllFatigueLevels now this =
     map (\<lambda>fatigue.
            let currentFatigue = max 0 (fatigueLevel fatigue - recovery now fatigue)
            in fatigue\<lparr>fatigueLevel := currentFatigue\<rparr>)
         (map snd (muscleFatigue this))"

record exercise =
  exerciseMuscleGroup :: string
  targetMuscles :: "string list option"

record ExerciseFatigue =
  primaryFatigue :: real
  secondaryFatigue :: real
  overallFatigue :: real

text \<open>The body of \<open>targetMuscles.forEach\<close>, threading the two counters it assigns.\<close>

fun forEach_targetMuscle ::
  "int \<Rightarrow> FatigueCalculator \<Rightarrow> string \<Rightarrow> string list \<Rightarrow> real \<times> nat \<Rightarrow> real \<times> nat" where
  "forEach_targetMuscle now this mg [] (secondary, secondaryCount) =
     (secondary, secondaryCount)"
| "forEach_targetMuscle now this mg (muscle # muscles) (secondary, secondaryCount) =
     (if muscle \<noteq> mg
      then forEach_targetMuscle now this mg muscles
             (secondary + getFatigueLevel now muscle this, secondaryCount + 1)
      else forEach_targetMuscle now this mg muscles (secondary, secondaryCount))"

definition getExerciseFatigue :: "int \<Rightarrow> exercise \<Rightarrow> FatigueCalculator \<Rightarrow> ExerciseFatigue" where
  "getExerciseFatigue now ex this =
     (let primary = getFatigueLevel now (exerciseMuscleGroup ex) this;
          (secondary, secondaryCount) =
            (case targetMuscles ex of
               None \<Rightarrow> (0, 0)
             | Some muscles \<Rightarrow>
                 forEach_targetMuscle now this (exerciseMuscleGroup ex) muscles (0, 0));
          avgSecondaryFatigue =
            (if secondaryCount > 0 then secondary / real secondaryCount else 0);
          overall = primary * 0.7 + avgSecondaryFatigue * 0.3
      in \<lparr>primaryFatigue = primary, secondaryFatigue = avgSecondaryFatigue,
          overallFatigue = overall\<rparr>)"

text \<open>\<open>Math.round\<close> rounds to the nearest integer, a half upwards. A template literal
  prints the rounded number in decimal.\<close>

definition Math_round :: "real \<Rightarrow> int" where
  "Math_round x = \<lfloor>x + 0.5\<rfloor>"

definition digit_char :: "nat \<Rightarrow> char" where
  "digit_char d = ''0123456789'' ! d"

function nat_toString :: "nat \<Rightarrow> string" where
  "nat_toString n =
     (if n < 10 then [digit_char n]
      else nat_toString (n div 10) @ [digit_char (n mod 10)])"
  by pat_completeness auto
termination
  by (relation "measure id") auto

declare nat_toString.simps [simp del]

definition number_toString :: "int \<Rightarrow> string" where
  "number_toString i =
     (if i < 0 then ''-'' @ nat_toString (nat (- i)) else nat_toString (nat i))"

definition fatigue_label :: "MuscleFatigue \<Rightarrow> string" where
  "fatigue_label f =
     muscleGroup f @ '' ('' @ number_toString (Math_round (fatigueLevel f)) @ ''% fatigue)''"

text \<open>\<open>Array.prototype.sort\<close> with the comparator \<open>a.fatigueLevel - b.fatigueLevel\<close> is a
  stable ascending sort on the fatigue level; \<open>sort_key\<close> is one.\<close>

definition getNextExerciseSuggestion :: "MuscleFatigue list \<Rightarrow> string" where
  "getNextExerciseSuggestion allFatigue =
     (let lowFatigueMuscles = filter (\<lambda>f. fatigueLevel f < 30) allFatigue
      in if length lowFatigueMuscles = 0
         then ''Consider a different muscle group or take a longer rest''
         else (let sortedByFatigue = sort_key fatigueLevel lowFatigueMuscles
               in ''Consider targeting '' @ fatigue_label (sortedByFatigue ! 0)))"

record Recommendations =
  restNeeded :: "string list"
  intensityAdjustment :: string
  nextExerciseSuggestion :: string

definition getFatigueRecommendations :: "int \<Rightarrow> FatigueCalculator \<Rightarrow> Recommendations" where
  "getFatigueRecommendations now this =
     (let allFatigue = getAllFatigueLevels now this;
          highFatigue = filter (\<lambda>f. fatigueLevel f > 70) allFatigue;
          moderateFatigue =
            filter (\<lambda>f. fatigueLevel f > 40 \<and> fatigueLevel f \<le> 70) allFatigue;
          rest = map fatigue_label highFatigue;
          adjustment =
            (if length highFatigue > 0 then ''reduce''
             else if length moderateFatigue > 0 then ''moderate''
             else ''maintain'');
          suggestion = getNextExerciseSuggestion allFatigue
      in \<lparr>restNeeded = rest, intensityAdjustment = adjustment,
          nextExerciseSuggestion = suggestion\<rparr>)"

definition resetFatigue :: "int \<Rightarrow> FatigueCalculator \<Rightarrow> FatigueCalculator" where
  "resetFatigue now this = this\<lparr>muscleFatigue := [], workoutStartTime := now\<rparr>"

definition getWorkoutDuration :: "int \<Rightarrow> FatigueCalculator \<Rightarrow> real" where
  "getWorkoutDuration now this = real_of_int (now - workoutStartTime this) / 1000 / 60"

subsection \<open>Method calls and traces\<close>

text \<open>
  A call of a public method, with the clock reading it is made at, gives a reply and the
  calculator after it. The five query methods assign to no field of the calculator and to
  no record held in the map (\<open>getAllFatigueLevels\<close> returns spread copies, and the sort
  works on the fresh array made by \<open>filter\<close>), so they hand the calculator on as it is.
\<close>

datatype call =
    UpdateFatigue FatigueFactors
  | GetFatigueLevel string
  | GetAllFatigueLevels
  | GetExerciseFatigue exercise
  | GetFatigueRecommendations
  | ResetFatigue
  | GetWorkoutDuration

datatype reply =
    Void
  | Number real
  | Levels "MuscleFatigue list"
  | Exercise ExerciseFatigue
  | Advice Recommendations

fun invoke :: "int \<Rightarrow> call \<Rightarrow> FatigueCalculator \<Rightarrow> reply \<times> FatigueCalculator" where
  "invoke now (UpdateFatigue factors) this = (Void, updateFatigue now factors this)"
| "invoke now (GetFatigueLevel mg) this = (Number (getFatigueLevel now mg this), this)"
| "invoke now GetAllFatigueLevels this = (Levels (getAllFatigueLevels now this), this)"
| "invoke now (GetExerciseFatigue ex) this = (Exercise (getExerciseFatigue now ex this), this)"
| "invoke now GetFatigueRecommendations this =
     (Advice (getFatigueRecommendations now this), this)"
| "invoke now ResetFatigue this = (Void, resetFatigue now this)"
| "invoke now GetWorkoutDuration this = (Number (getWorkoutDuration now this), this)"

fun is_query :: "call \<Rightarrow> bool" where
  "is_query (UpdateFatigue factors) = False"
| "is_query ResetFatigue = False"
| "is_query c = True"

text \<open>The calculator after a trace of calls, each made at its own clock reading.\<close>

fun run :: "(int \<times> call) list \<Rightarrow> FatigueCalculator \<Rightarrow> FatigueCalculator" where
  "run [] this = this"
| "run ((now, c) # calls) this = run calls (snd (invoke now c this))"

subsection \<open>The demo's bench press set\<close>

definition bench_press :: FatigueFactors where
  "bench_press =
     \<lparr>exerciseIntensity = 0.8, exerciseVolume = 200 * 8, exerciseDuration = 60,
      restTime = 120, factorsMuscleGroup = ''Chest'', exerciseDifficulty = intermediate\<rparr>"

subsection \<open>Observations used by the theorems\<close>

text \<open>The stored level of a muscle group; a group without a record counts as 0, as
  \<open>getFatigueLevel\<close> has it.\<close>

definition storedLevel :: "FatigueCalculator \<Rightarrow> string \<Rightarrow> real" where
  "storedLevel this mg =
     (case map_of (muscleFatigue this) mg of
        None \<Rightarrow> 0
      | Some fatigue \<Rightarrow> fatigueLevel fatigue)"

text \<open>What holds of the map after every trace from a new calculator: one entry per key,
  each record filed under its own muscle group, with the recovery rate of the table, and
  a level of at most 100.\<close>

definition well_formed :: "FatigueCalculator \<Rightarrow> bool" where
  "well_formed this \<longleftrightarrow>
     distinct (map fst (muscleFatigue this)) \<and>
     (\<forall>key fatigue. map_of (muscleFatigue this) key = Some fatigue \<longrightarrow>
        muscleGroup fatigue = key \<and>
        recoveryRate fatigue = lookup_or MUSCLE_RECOVERY_RATES key 2.0 \<and>
        fatigueLevel fatigue \<le> 100)"

text \<open>The stored cumulative volume of a muscle group, 0 without a record.\<close>

definition storedVolume :: "FatigueCalculator \<Rightarrow> string \<Rightarrow> real" where
  "storedVolume this mg =
     (case map_of (muscleFatigue this) mg of
        None \<Rightarrow> 0
      | Some fatigue \<Rightarrow> totalVolume fatigue)"

text \<open>Two sets used as concrete inputs: one with a negative volume, and the heaviest set
  there is for the forearms.\<close>

definition negative_volume_set :: FatigueFactors where
  "negative_volume_set =
     \<lparr>exerciseIntensity = 1, exerciseVolume = - 1000, exerciseDuration = 60,
      restTime = 0, factorsMuscleGroup = ''Chest'', exerciseDifficulty = intermediate\<rparr>"

definition extreme_set :: FatigueFactors where
  "extreme_set =
     \<lparr>exerciseIntensity = 1, exerciseVolume = 100000, exerciseDuration = 600,
      restTime = 0, factorsMuscleGroup = ''Forearms'', exerciseDifficulty = advanced\<rparr>"

text \<open>The bench press set done for the trapezius, and done with a negative rest time.\<close>

definition traps_set :: FatigueFactors where
  "traps_set = bench_press\<lparr>factorsMuscleGroup := ''Traps''\<rparr>"



section \<open>Properties\<close>

subsection \<open>The increment\<close>






subsection \<open>What one set changes\<close>

lemma map_of_updateFatigue_other:
  "mg \<noteq> factorsMuscleGroup factors \<Longrightarrow>
   map_of (muscleFatigue (updateFatigue now factors this)) mg = map_of (muscleFatigue this) mg"
  by (simp add: updateFatigue_def Let_def update_conv')

lemma map_of_updateFatigue_own:
  "\<exists>fatigue. map_of (muscleFatigue (updateFatigue now factors this)) (factorsMuscleGroup factors)
       = Some fatigue
     \<and> fatigueLevel fatigue =
         min 100 (getFatigueLevel now (factorsMuscleGroup factors) this
                  + calculateFatigueIncrease factors)
     \<and> lastExerciseTime fatigue = now
     \<and> (case map_of (muscleFatigue this) (factorsMuscleGroup factors) of
          None \<Rightarrow> muscleGroup fatigue = factorsMuscleGroup factors
                  \<and> recoveryRate fatigue =
                      lookup_or MUSCLE_RECOVERY_RATES (factorsMuscleGroup factors) 2.0
                  \<and> totalVolume fatigue = exerciseVolume factors
                  \<and> exerciseCount fatigue = 1
        | Some old \<Rightarrow> muscleGroup fatigue = muscleGroup old
                  \<and> recoveryRate fatigue = recoveryRate old
                  \<and> totalVolume fatigue = totalVolume old + exerciseVolume factors
                  \<and> exerciseCount fatigue = exerciseCount old + 1)"
  by (simp add: updateFatigue_def Let_def update_conv' getFatigueLevel_def recovery_def
      split: option.split)

lemma keys_updateFatigue:
  "map fst (muscleFatigue (updateFatigue now factors this)) =
     (if factorsMuscleGroup factors \<in> set (map fst (muscleFatigue this))
      then map fst (muscleFatigue this)
      else map fst (muscleFatigue this) @ [factorsMuscleGroup factors])"
  by (simp add: updateFatigue_def Let_def update_keys)

lemma workoutStartTime_updateFatigue:
  "workoutStartTime (updateFatigue now factors this) = workoutStartTime this"
  by (simp add: updateFatigue_def Let_def)

lemma filter_update_other:
  "filter (\<lambda>p. fst p \<noteq> k) (AList.update k v al) = filter (\<lambda>p. fst p \<noteq> k) al"
  by (induction al) auto

subsection \<open>Reachable calculators\<close>

lemma well_formed_new: "well_formed (new_FatigueCalculator t0)"
  by (simp add: well_formed_def new_FatigueCalculator_def)

lemma well_formed_resetFatigue: "well_formed (resetFatigue now this)"
  by (simp add: well_formed_def resetFatigue_def)

lemma well_formed_updateFatigue:
  assumes "well_formed this"
  shows "well_formed (updateFatigue now factors this)"
proof -
  let ?mg = "factorsMuscleGroup factors"
  let ?new = "updateFatigue now factors this"
  have d: "distinct (map fst (muscleFatigue ?new))"
    using assms by (auto simp: keys_updateFatigue well_formed_def)
  have "muscleGroup fatigue = key \<and>
        recoveryRate fatigue = lookup_or MUSCLE_RECOVERY_RATES key 2.0 \<and>
        fatigueLevel fatigue \<le> 100"
    if m: "map_of (muscleFatigue ?new) key = Some fatigue" for key fatigue
  proof (cases "key = ?mg")
    case False
    with m have "map_of (muscleFatigue this) key = Some fatigue"
      by (simp add: map_of_updateFatigue_other)
    with assms show ?thesis by (simp add: well_formed_def)
  next
    case True
    from map_of_updateFatigue_own [of now factors this] m True
    show ?thesis
      using assms by (auto simp: well_formed_def split: option.splits)
  qed
  with d show ?thesis by (simp add: well_formed_def)
qed

lemma well_formed_invoke: "well_formed this \<Longrightarrow> well_formed (snd (invoke now c this))"
  by (cases c) (simp_all add: well_formed_updateFatigue well_formed_resetFatigue)

lemma well_formed_run: "well_formed this \<Longrightarrow> well_formed (run calls this)"
  by (induction calls arbitrary: this) (auto simp: well_formed_invoke)

lemma well_formed_reachable: "well_formed (run calls (new_FatigueCalculator t0))"
  by (simp add: well_formed_run well_formed_new)

lemma well_formed_entry:
  assumes "well_formed this" "p \<in> set (muscleFatigue this)"
  shows "map_of (muscleFatigue this) (fst p) = Some (snd p)"
  using assms by (cases p) (simp add: well_formed_def)

subsection \<open>The snapshot and the single query agree\<close>

lemma muscleGroup_getAllFatigueLevels:
  assumes "well_formed this"
  shows "map muscleGroup (getAllFatigueLevels now this) = map fst (muscleFatigue this)"
proof -
  have "muscleGroup (snd p) = fst p" if "p \<in> set (muscleFatigue this)" for p
    using well_formed_entry [OF assms that] assms by (simp add: well_formed_def)
  then show ?thesis
    by (simp add: getAllFatigueLevels_def Let_def)
qed

lemma fatigueLevel_getAllFatigueLevels:
  assumes "well_formed this" "x \<in> set (getAllFatigueLevels now this)"
  shows "fatigueLevel x = getFatigueLevel now (muscleGroup x) this"
proof -
  from assms(2) obtain p where p: "p \<in> set (muscleFatigue this)"
    and x: "x = (snd p)\<lparr>fatigueLevel := max 0 (fatigueLevel (snd p) - recovery now (snd p))\<rparr>"
    by (auto simp: getAllFatigueLevels_def Let_def)
  have "map_of (muscleFatigue this) (fst p) = Some (snd p)"
    by (rule well_formed_entry [OF assms(1) p])
  moreover from this assms(1) have "muscleGroup (snd p) = fst p"
    by (simp add: well_formed_def)
  ultimately show ?thesis
    using x by (simp add: getFatigueLevel_def)
qed


lemma getFatigueLevel_unrecorded:
  assumes "mg \<notin> set (map fst (muscleFatigue this))"
  shows "getFatigueLevel now mg this = 0"
proof -
  from assms have "map_of (muscleFatigue this) mg = None"
    by (simp add: map_of_eq_None_iff)
  then show ?thesis by (simp add: getFatigueLevel_def)
qed

subsection \<open>The head of the stable sort\<close>

lemma sort_key_first:
  assumes "\<forall>x\<in>set pre. f y < f x" "\<forall>x\<in>set post. f y \<le> f x"
  shows "\<exists>rest. sort_key f (pre @ y # post) = y # rest"
  using assms
proof (induction pre)
  case Nil
  then have "insort_key f y (sort_key f post) = y # sort_key f post"
    by (intro insort_is_Cons) simp
  then show ?case by simp
next
  case (Cons p pre)
  then obtain rest where "sort_key f (pre @ y # post) = y # rest" by auto
  moreover have "\<not> f p \<le> f y" using Cons.prems by auto
  ultimately show ?case by simp
qed

lemma first_lowest_exists:
  fixes f :: "'a \<Rightarrow> real"
  assumes "\<exists>x\<in>set xs. P x"
  shows "\<exists>pre y post. xs = pre @ y # post \<and> P y \<and>
           (\<forall>x\<in>set pre. P x \<longrightarrow> f y < f x) \<and> (\<forall>x\<in>set post. P x \<longrightarrow> f y \<le> f x)"
  using assms
proof (induction xs)
  case Nil
  then show ?case by simp
next
  case (Cons a xs)
  show ?case
  proof (cases "\<exists>x\<in>set xs. P x")
    case False
    with Cons.prems have "P a" by auto
    with False have "a # xs = [] @ a # xs \<and> P a \<and>
           (\<forall>x\<in>set []. P x \<longrightarrow> f a < f x) \<and> (\<forall>x\<in>set xs. P x \<longrightarrow> f a \<le> f x)"
      by auto
    then show ?thesis by blast
  next
    case True
    from Cons.IH [OF True] obtain pre y post where s: "xs = pre @ y # post" "P y"
      "\<forall>x\<in>set pre. P x \<longrightarrow> f y < f x" "\<forall>x\<in>set post. P x \<longrightarrow> f y \<le> f x"
      by blast
    show ?thesis
    proof (cases "P a \<and> f a \<le> f y")
      case True
      with s have "a # xs = [] @ a # xs \<and> P a \<and>
           (\<forall>x\<in>set []. P x \<longrightarrow> f a < f x) \<and> (\<forall>x\<in>set xs. P x \<longrightarrow> f a \<le> f x)"
        by fastforce
      then show ?thesis by blast
    next
      case False
      with s have "a # xs = (a # pre) @ y # post \<and> P y \<and>
           (\<forall>x\<in>set (a # pre). P x \<longrightarrow> f y < f x) \<and> (\<forall>x\<in>set post. P x \<longrightarrow> f y \<le> f x)"
        by auto
      then show ?thesis by blast
    qed
  qed
qed

lemma getNextExerciseSuggestion_first_lowest:
  assumes "allFatigue = pre @ y # post" "fatigueLevel y < 30"
    "\<forall>x\<in>set pre. fatigueLevel x < 30 \<longrightarrow> fatigueLevel y < fatigueLevel x"
    "\<forall>x\<in>set post. fatigueLevel x < 30 \<longrightarrow> fatigueLevel y \<le> fatigueLevel x"
  shows "getNextExerciseSuggestion allFatigue = ''Consider targeting '' @ fatigue_label y"
proof -
  let ?P = "\<lambda>f. fatigueLevel f < 30"
  have "filter ?P allFatigue = filter ?P pre @ y # filter ?P post"
    using assms(1,2) by simp
  moreover have "\<exists>rest. sort_key fatigueLevel (filter ?P pre @ y # filter ?P post) = y # rest"
    using assms(3,4) by (intro sort_key_first) auto
  ultimately show ?thesis
    by (auto simp: getNextExerciseSuggestion_def Let_def)
qed

lemma getNextExerciseSuggestion_none:
  assumes "\<forall>x\<in>set allFatigue. 30 \<le> fatigueLevel x"
  shows "getNextExerciseSuggestion allFatigue =
           ''Consider a different muscle group or take a longer rest''"
proof -
  have "filter (\<lambda>f. fatigueLevel f < 30) allFatigue = []"
    using assms by (auto simp: filter_empty_conv)
  then show ?thesis by (simp add: getNextExerciseSuggestion_def)
qed

subsection \<open>Recovery and the invariants of traces\<close>








subsection \<open>Stored observations and queries\<close>


lemma storedLevel_updateFatigue_other:
  "mg \<noteq> factorsMuscleGroup factors \<Longrightarrow>
   storedLevel (updateFatigue now factors this) mg = storedLevel this mg"
  by (simp add: storedLevel_def map_of_updateFatigue_other)


lemma storedVolume_updateFatigue_other:
  "mg \<noteq> factorsMuscleGroup factors \<Longrightarrow>
   storedVolume (updateFatigue now factors this) mg = storedVolume this mg"
  by (simp add: storedVolume_def map_of_updateFatigue_other)


lemma invoke_query: "is_query c \<Longrightarrow> snd (invoke now c this) = this"
  by (cases c) simp_all

lemma run_queries: "\<forall>(t, c)\<in>set calls. is_query c \<Longrightarrow> run calls this = this"
  by (induction calls arbitrary: this) (auto simp: invoke_query)

subsection \<open>The snapshot, labels and the loop over target muscles\<close>

lemma forEach_targetMuscle_sum:
  "forEach_targetMuscle now this mg muscles (s, n) =
     (s + sum_list (map (\<lambda>muscle. getFatigueLevel now muscle this)
                        (filter (\<lambda>muscle. muscle \<noteq> mg) muscles)),
      n + length (filter (\<lambda>muscle. muscle \<noteq> mg) muscles))"
  by (induction muscles arbitrary: s n) auto

lemma fatigue_label_getAllFatigueLevels:
  assumes "well_formed this" "x \<in> set (getAllFatigueLevels now this)"
  shows "fatigue_label x =
           muscleGroup x @ '' (''
             @ number_toString (Math_round (getFatigueLevel now (muscleGroup x) this))
             @ ''% fatigue)''"
  using fatigueLevel_getAllFatigueLevels [OF assms] by (simp add: fatigue_label_def)

lemma filter_getAllFatigueLevels:
  assumes "well_formed this"
  shows "map muscleGroup (filter (\<lambda>f. P (fatigueLevel f)) (getAllFatigueLevels now this))
           = filter (\<lambda>mg. P (getFatigueLevel now mg this)) (map fst (muscleFatigue this))"
proof -
  have "filter (\<lambda>f. P (fatigueLevel f)) (getAllFatigueLevels now this)
          = filter (\<lambda>f. P (getFatigueLevel now (muscleGroup f) this)) (getAllFatigueLevels now this)"
    by (rule filter_cong)
       (simp_all add: fatigueLevel_getAllFatigueLevels [OF assms, where now = now])
  then show ?thesis
    by (simp add: muscleGroup_getAllFatigueLevels [OF assms, of now, symmetric] filter_map o_def)
qed

lemma exists_level_iff:
  assumes "0 \<le> c"
  shows "(\<exists>mg\<in>set (map fst (muscleFatigue this)). c < getFatigueLevel now mg this \<and> Q (getFatigueLevel now mg this))
           \<longleftrightarrow> (\<exists>mg. c < getFatigueLevel now mg this \<and> Q (getFatigueLevel now mg this))"
proof
  assume "\<exists>mg. c < getFatigueLevel now mg this \<and> Q (getFatigueLevel now mg this)"
  then obtain mg where mg: "c < getFatigueLevel now mg this" "Q (getFatigueLevel now mg this)"
    by blast
  with assms have "getFatigueLevel now mg this \<noteq> 0" by simp
  then have "mg \<in> set (map fst (muscleFatigue this))"
    using getFatigueLevel_unrecorded [of mg this now] by blast
  with mg show "\<exists>mg\<in>set (map fst (muscleFatigue this)). c < getFatigueLevel now mg this \<and> Q (getFatigueLevel now mg this)"
    by blast
qed blast

lemma nextExerciseSuggestion_getFatigueRecommendations:
  "nextExerciseSuggestion (getFatigueRecommendations now this)
     = getNextExerciseSuggestion (getAllFatigueLevels now this)"
  by (simp add: getFatigueRecommendations_def Let_def)

subsection \<open>Evaluation of concrete inputs\<close>

lemmas eval_defs = updateFatigue_def new_FatigueCalculator_def bench_press_def
  calculateFatigueIncrease_def getFatigueLevel_def recovery_def lookup_or_def
  MUSCLE_FATIGUE_RATES_def MUSCLE_RECOVERY_RATES_def Let_def storedLevel_def storedVolume_def
  negative_volume_set_def extreme_set_def

lemmas print_defs = Math_round_def number_toString_def nat_toString.simps digit_char_def

lemma bench_press_once:
  "updateFatigue t bench_press (new_FatigueCalculator t0) =
     \<lparr>muscleFatigue =
        [(''Chest'', \<lparr>muscleGroup = ''Chest'', fatigueLevel = 17.28, lastExerciseTime = t,
             totalVolume = 1600, exerciseCount = 1, recoveryRate = 2.5\<rparr>)],
      workoutStartTime = t0\<rparr>"
  by (simp add: eval_defs)

lemma extreme_set_once:
  "updateFatigue t extreme_set (new_FatigueCalculator t0) =
     \<lparr>muscleFatigue =
        [(''Forearms'', \<lparr>muscleGroup = ''Forearms'', fatigueLevel = 50, lastExerciseTime = t,
             totalVolume = 100000, exerciseCount = 1, recoveryRate = 0.5\<rparr>)],
      workoutStartTime = t0\<rparr>"
  by (simp add: eval_defs)

lemma extreme_set_increase: "calculateFatigueIncrease extreme_set = 50"
  by (simp add: eval_defs)

lemma extreme_set_twice:
  "updateFatigue t extreme_set (updateFatigue t extreme_set (new_FatigueCalculator t0)) =
     \<lparr>muscleFatigue =
        [(''Forearms'', \<lparr>muscleGroup = ''Forearms'', fatigueLevel = 100, lastExerciseTime = t,
             totalVolume = 200000, exerciseCount = 2, recoveryRate = 0.5\<rparr>)],
      workoutStartTime = t0\<rparr>"
  apply (simp only: extreme_set_once)
  apply (simp add: updateFatigue_def extreme_set_increase recovery_def Let_def)
  apply (simp add: extreme_set_def)
  done


lemma heavy_then_bench:
  "updateFatigue 0 bench_press
     (updateFatigue 0 extreme_set (updateFatigue 0 extreme_set (new_FatigueCalculator 0))) =
     \<lparr>muscleFatigue =
        [(''Forearms'', \<lparr>muscleGroup = ''Forearms'', fatigueLevel = 100, lastExerciseTime = 0,
             totalVolume = 200000, exerciseCount = 2, recoveryRate = 0.5\<rparr>),
         (''Chest'', \<lparr>muscleGroup = ''Chest'', fatigueLevel = 17.28, lastExerciseTime = 0,
             totalVolume = 1600, exerciseCount = 1, recoveryRate = 2.5\<rparr>)],
      workoutStartTime = 0\<rparr>"
  apply (simp only: extreme_set_twice)
  apply (simp add: eval_defs)
  done

lemma traps_set_once:
  "updateFatigue t traps_set (new_FatigueCalculator t0) =
     \<lparr>muscleFatigue =
        [(''Traps'', \<lparr>muscleGroup = ''Traps'', fatigueLevel = 17.28, lastExerciseTime = t,
             totalVolume = 1600, exerciseCount = 1, recoveryRate = 2.5\<rparr>)],
      workoutStartTime = t0\<rparr>"
  by (simp add: eval_defs traps_set_def)

lemma traps_then_chest:
  "updateFatigue 0 bench_press (updateFatigue 0 traps_set (new_FatigueCalculator 0)) =
     \<lparr>muscleFatigue =
        [(''Traps'', \<lparr>muscleGroup = ''Traps'', fatigueLevel = 17.28, lastExerciseTime = 0,
             totalVolume = 1600, exerciseCount = 1, recoveryRate = 2.5\<rparr>),
         (''Chest'', \<lparr>muscleGroup = ''Chest'', fatigueLevel = 17.28, lastExerciseTime = 0,
             totalVolume = 1600, exerciseCount = 1, recoveryRate = 2.5\<rparr>)],
      workoutStartTime = 0\<rparr>"
  apply (simp only: traps_set_once)
  apply (simp add: eval_defs)
  done

lemma print_100: "number_toString (Math_round 100) = ''100''"
  by (simp add: print_defs)

lemma print_17: "number_toString (Math_round 17.28) = ''17''"
  by (simp add: print_defs)


section \<open>Claims\<close>

subsection \<open>C1: the range of the fatigue level\<close>




subsection \<open>C2: negative inputs\<close>




subsection \<open>C3: reads do not write\<close>

text \<open>
  C3. A call of \<open>getFatigueLevel\<close> hands the calculator on unchanged; a second call at the
  same clock reading replies the same; and after any number of query calls, made at any
  clock readings, the calculator is the one before them, so a further \<open>getFatigueLevel\<close>
  replies as it would have without them.
\<close>

theorem getFatigueLevel_read_only:
  "snd (invoke now (GetFatigueLevel mg) this) = this
   \<and> fst (invoke now (GetFatigueLevel mg) (snd (invoke now (GetFatigueLevel mg) this)))
       = fst (invoke now (GetFatigueLevel mg) this)
   \<and> ((\<forall>(t, c)\<in>set calls. is_query c) \<longrightarrow>
        run calls this = this \<and>
        invoke now (GetFatigueLevel mg) (run calls this) = invoke now (GetFatigueLevel mg) this)"
  by (simp add: run_queries)

theorem getFatigueLevel_read_only_witness:
  "is_query (GetFatigueLevel ''Chest'') \<and> is_query GetAllFatigueLevels
   \<and> is_query GetFatigueRecommendations
   \<and> run [(60000, GetFatigueLevel ''Chest''), (120000, GetAllFatigueLevels),
           (180000, GetFatigueRecommendations)]
        (updateFatigue 0 bench_press (new_FatigueCalculator 0))
       = updateFatigue 0 bench_press (new_FatigueCalculator 0)
   \<and> invoke 300000 (GetFatigueLevel ''Chest'')
        (run [(60000, GetFatigueLevel ''Chest''), (120000, GetAllFatigueLevels),
              (180000, GetFatigueRecommendations)]
           (updateFatigue 0 bench_press (new_FatigueCalculator 0)))
       = invoke 300000 (GetFatigueLevel ''Chest'')
           (updateFatigue 0 bench_press (new_FatigueCalculator 0))
   \<and> fst (invoke 300000 (GetFatigueLevel ''Chest'')
           (updateFatigue 0 bench_press (new_FatigueCalculator 0))) = Number 4.78"
proof -
  let ?calls = "[(60000::int, GetFatigueLevel ''Chest''), (120000, GetAllFatigueLevels),
                 (180000, GetFatigueRecommendations)]"
  let ?st = "updateFatigue 0 bench_press (new_FatigueCalculator 0)"
  have q: "\<forall>(t, c)\<in>set ?calls. is_query c" by simp
  from getFatigueLevel_read_only [of 300000 "''Chest''" ?st ?calls] q
  have "run ?calls ?st = ?st \<and>
        invoke 300000 (GetFatigueLevel ''Chest'') (run ?calls ?st)
          = invoke 300000 (GetFatigueLevel ''Chest'') ?st"
    by blast
  moreover have "fst (invoke 300000 (GetFatigueLevel ''Chest'') ?st) = Number 4.78"
    by (simp add: bench_press_once getFatigueLevel_def recovery_def)
  ultimately show ?thesis by simp
qed

subsection \<open>C4: decay\<close>



subsection \<open>C5: the cap of one set\<close>



subsection \<open>C6: the bench press scenario\<close>


subsection \<open>C7: rest and intensity recommendations\<close>

text \<open>
  C7. In the recommendations of a calculator reached by any trace, \<open>restNeeded\<close> lists, in
  the order of the map and once per muscle group (the keys are distinct), the string
  "muscle (rounded level% fatigue)" of exactly the groups whose current level is above 70;
  and \<open>intensityAdjustment\<close> is "reduce" if some group's level is above 70, else "moderate"
  if some group's level is above 40 and at most 70, else "maintain".
\<close>

theorem recommendations_rest_and_intensity:
  "restNeeded (getFatigueRecommendations now (run calls (new_FatigueCalculator t0)))
     = map (\<lambda>mg. mg @ '' (''
               @ number_toString
                   (Math_round (getFatigueLevel now mg (run calls (new_FatigueCalculator t0))))
               @ ''% fatigue)'')
         (filter (\<lambda>mg. 70 < getFatigueLevel now mg (run calls (new_FatigueCalculator t0)))
            (map fst (muscleFatigue (run calls (new_FatigueCalculator t0)))))
   \<and> distinct (map fst (muscleFatigue (run calls (new_FatigueCalculator t0))))
   \<and> intensityAdjustment (getFatigueRecommendations now (run calls (new_FatigueCalculator t0)))
     = (if \<exists>mg. 70 < getFatigueLevel now mg (run calls (new_FatigueCalculator t0))
        then ''reduce''
        else if \<exists>mg. 40 < getFatigueLevel now mg (run calls (new_FatigueCalculator t0))
                    \<and> getFatigueLevel now mg (run calls (new_FatigueCalculator t0)) \<le> 70
        then ''moderate''
        else ''maintain'')"
proof -
  let ?st = "run calls (new_FatigueCalculator t0)"
  let ?all = "getAllFatigueLevels now ?st"
  let ?cur = "\<lambda>mg. getFatigueLevel now mg ?st"
  let ?lab = "\<lambda>mg. mg @ '' ('' @ number_toString (Math_round (?cur mg)) @ ''% fatigue)''"
  have wf: "well_formed ?st" by (rule well_formed_reachable)
  have "map fatigue_label (filter (\<lambda>f. 70 < fatigueLevel f) ?all)
          = map (\<lambda>f. ?lab (muscleGroup f)) (filter (\<lambda>f. 70 < fatigueLevel f) ?all)"
    by (rule map_cong) (simp_all add: fatigue_label_getAllFatigueLevels [OF wf, where now = now])
  also have "\<dots> = map ?lab (map muscleGroup (filter (\<lambda>f. 70 < fatigueLevel f) ?all))"
    by (simp add: o_def)
  also have "\<dots> = map ?lab (filter (\<lambda>mg. 70 < ?cur mg) (map fst (muscleFatigue ?st)))"
    by (simp only: filter_getAllFatigueLevels [OF wf, of "\<lambda>l. 70 < l"])
  finally have rest: "restNeeded (getFatigueRecommendations now ?st)
      = map ?lab (filter (\<lambda>mg. 70 < ?cur mg) (map fst (muscleFatigue ?st)))"
    by (simp add: getFatigueRecommendations_def Let_def)
  have len: "0 < length (filter (\<lambda>f. P (fatigueLevel f)) ?all)
               \<longleftrightarrow> (\<exists>mg\<in>set (map fst (muscleFatigue ?st)). P (?cur mg))" for P
  proof -
    have "length (filter (\<lambda>f. P (fatigueLevel f)) ?all)
            = length (map muscleGroup (filter (\<lambda>f. P (fatigueLevel f)) ?all))" by simp
    also have "\<dots> = length (filter (\<lambda>mg. P (?cur mg)) (map fst (muscleFatigue ?st)))"
      by (simp only: filter_getAllFatigueLevels [OF wf])
    finally show ?thesis by (simp add: filter_empty_conv)
  qed
  have high: "0 < length (filter (\<lambda>f. 70 < fatigueLevel f) ?all) \<longleftrightarrow> (\<exists>mg. 70 < ?cur mg)"
    using len [of "\<lambda>l. 70 < l"] exists_level_iff [of 70 ?st now "\<lambda>l. True"] by simp
  have moderate: "0 < length (filter (\<lambda>f. 40 < fatigueLevel f \<and> fatigueLevel f \<le> 70) ?all)
      \<longleftrightarrow> (\<exists>mg. 40 < ?cur mg \<and> ?cur mg \<le> 70)"
    using len [of "\<lambda>l. 40 < l \<and> l \<le> 70"] exists_level_iff [of 40 ?st now "\<lambda>l. l \<le> 70"]
    by simp
  have "intensityAdjustment (getFatigueRecommendations now ?st)
     = (if \<exists>mg. 70 < ?cur mg then ''reduce''
        else if \<exists>mg. 40 < ?cur mg \<and> ?cur mg \<le> 70 then ''moderate''
        else ''maintain'')"
    unfolding high [symmetric] moderate [symmetric]
    by (simp add: getFatigueRecommendations_def Let_def)
  moreover have "distinct (map fst (muscleFatigue ?st))"
    using wf by (simp add: well_formed_def)
  ultimately show ?thesis using rest by simp
qed

theorem recommendations_rest_and_intensity_witness:
  "getFatigueLevel 0 ''Forearms''
     (run [(0, UpdateFatigue extreme_set), (0, UpdateFatigue extreme_set),
           (0, UpdateFatigue bench_press)] (new_FatigueCalculator 0)) = 100
   \<and> getFatigueLevel 0 ''Chest''
     (run [(0, UpdateFatigue extreme_set), (0, UpdateFatigue extreme_set),
           (0, UpdateFatigue bench_press)] (new_FatigueCalculator 0)) = 17.28
   \<and> restNeeded (getFatigueRecommendations 0
       (run [(0, UpdateFatigue extreme_set), (0, UpdateFatigue extreme_set),
             (0, UpdateFatigue bench_press)] (new_FatigueCalculator 0)))
     = [''Forearms (100% fatigue)'']
   \<and> intensityAdjustment (getFatigueRecommendations 0
       (run [(0, UpdateFatigue extreme_set), (0, UpdateFatigue extreme_set),
             (0, UpdateFatigue bench_press)] (new_FatigueCalculator 0)))
     = ''reduce''"
proof -
  let ?calls = "[(0::int, UpdateFatigue extreme_set), (0, UpdateFatigue extreme_set),
                 (0, UpdateFatigue bench_press)]"
  let ?st = "updateFatigue 0 bench_press
     (updateFatigue 0 extreme_set (updateFatigue 0 extreme_set (new_FatigueCalculator 0)))"
  have run_eq: "run ?calls (new_FatigueCalculator 0) = ?st" by simp
  have keys: "map fst (muscleFatigue ?st) = [''Forearms'', ''Chest'']"
    by (simp add: heavy_then_bench)
  have forearms: "getFatigueLevel 0 ''Forearms'' ?st = 100"
    by (simp add: heavy_then_bench getFatigueLevel_def recovery_def)
  have chest: "getFatigueLevel 0 ''Chest'' ?st = 17.28"
    by (simp add: heavy_then_bench getFatigueLevel_def recovery_def)
  have high: "\<exists>mg. 70 < getFatigueLevel 0 mg ?st"
    using forearms by (intro exI [of _ "''Forearms''"]) simp
  note r = recommendations_rest_and_intensity [of 0 ?calls 0, unfolded run_eq]
  from r have "restNeeded (getFatigueRecommendations 0 ?st)
     = map (\<lambda>mg. mg @ '' ('' @ number_toString (Math_round (getFatigueLevel 0 mg ?st))
                     @ ''% fatigue)'')
         (filter (\<lambda>mg. 70 < getFatigueLevel 0 mg ?st) (map fst (muscleFatigue ?st)))"
    by (rule conjunct1)
  then have rest: "restNeeded (getFatigueRecommendations 0 ?st) = [''Forearms (100% fatigue)'']"
    unfolding keys by (simp add: forearms chest print_100)
  from r have "intensityAdjustment (getFatigueRecommendations 0 ?st)
     = (if \<exists>mg. 70 < getFatigueLevel 0 mg ?st then ''reduce''
        else if \<exists>mg. 40 < getFatigueLevel 0 mg ?st \<and> getFatigueLevel 0 mg ?st \<le> 70
        then ''moderate'' else ''maintain'')"
    by (elim conjE)
  with high have "intensityAdjustment (getFatigueRecommendations 0 ?st) = ''reduce''"
    by (simp only: if_True)
  with rest forearms chest show ?thesis unfolding run_eq by (simp only: simp_thms)
qed

subsection \<open>C8: the next exercise\<close>

text \<open>
  C8. In a calculator reached by any trace, the snapshot lists the muscle groups in the order
  of the map, to which a set appends its group when it is new and which it leaves alone
  otherwise. If no recorded group has a current level below 30, the suggestion is the fixed
  fallback string. If a group \<open>mg\<close> has a level below 30 that is strictly lower than that of
  every group below 30 before it in this order, and not higher than that of every group
  below 30 after it, the suggestion names \<open>mg\<close> with its rounded level; and such a group
  exists whenever some recorded group is below 30.
\<close>

theorem next_exercise_suggestion:
  "map muscleGroup (getAllFatigueLevels now (run calls (new_FatigueCalculator t0)))
     = map fst (muscleFatigue (run calls (new_FatigueCalculator t0)))
   \<and> map fst (muscleFatigue (updateFatigue t factors (run calls (new_FatigueCalculator t0))))
     = (if factorsMuscleGroup factors
            \<in> set (map fst (muscleFatigue (run calls (new_FatigueCalculator t0))))
        then map fst (muscleFatigue (run calls (new_FatigueCalculator t0)))
        else map fst (muscleFatigue (run calls (new_FatigueCalculator t0)))
               @ [factorsMuscleGroup factors])
   \<and> ((\<forall>h\<in>set (map fst (muscleFatigue (run calls (new_FatigueCalculator t0)))).
          30 \<le> getFatigueLevel now h (run calls (new_FatigueCalculator t0))) \<longrightarrow>
        nextExerciseSuggestion (getFatigueRecommendations now (run calls (new_FatigueCalculator t0)))
          = ''Consider a different muscle group or take a longer rest'')
   \<and> (map fst (muscleFatigue (run calls (new_FatigueCalculator t0))) = pre @ mg # post \<and>
        getFatigueLevel now mg (run calls (new_FatigueCalculator t0)) < 30 \<and>
        (\<forall>h\<in>set pre. getFatigueLevel now h (run calls (new_FatigueCalculator t0)) < 30 \<longrightarrow>
           getFatigueLevel now mg (run calls (new_FatigueCalculator t0))
             < getFatigueLevel now h (run calls (new_FatigueCalculator t0))) \<and>
        (\<forall>h\<in>set post. getFatigueLevel now h (run calls (new_FatigueCalculator t0)) < 30 \<longrightarrow>
           getFatigueLevel now mg (run calls (new_FatigueCalculator t0))
             \<le> getFatigueLevel now h (run calls (new_FatigueCalculator t0))) \<longrightarrow>
        nextExerciseSuggestion (getFatigueRecommendations now (run calls (new_FatigueCalculator t0)))
          = ''Consider targeting '' @ mg @ '' (''
              @ number_toString
                  (Math_round (getFatigueLevel now mg (run calls (new_FatigueCalculator t0))))
              @ ''% fatigue)'')
   \<and> ((\<exists>h\<in>set (map fst (muscleFatigue (run calls (new_FatigueCalculator t0)))).
          getFatigueLevel now h (run calls (new_FatigueCalculator t0)) < 30) \<longrightarrow>
        (\<exists>pre' mg' post'.
           map fst (muscleFatigue (run calls (new_FatigueCalculator t0))) = pre' @ mg' # post' \<and>
           getFatigueLevel now mg' (run calls (new_FatigueCalculator t0)) < 30 \<and>
           (\<forall>h\<in>set pre'. getFatigueLevel now h (run calls (new_FatigueCalculator t0)) < 30 \<longrightarrow>
              getFatigueLevel now mg' (run calls (new_FatigueCalculator t0))
                < getFatigueLevel now h (run calls (new_FatigueCalculator t0))) \<and>
           (\<forall>h\<in>set post'. getFatigueLevel now h (run calls (new_FatigueCalculator t0)) < 30 \<longrightarrow>
              getFatigueLevel now mg' (run calls (new_FatigueCalculator t0))
                \<le> getFatigueLevel now h (run calls (new_FatigueCalculator t0)))))"
proof -
  let ?st = "run calls (new_FatigueCalculator t0)"
  let ?all = "getAllFatigueLevels now ?st"
  let ?keys = "map fst (muscleFatigue ?st)"
  let ?cur = "\<lambda>h. getFatigueLevel now h ?st"
  let ?sugg = "nextExerciseSuggestion (getFatigueRecommendations now ?st)"
  have wf: "well_formed ?st" by (rule well_formed_reachable)
  have keys: "map muscleGroup ?all = ?keys"
    by (rule muscleGroup_getAllFatigueLevels [OF wf])
  have level: "fatigueLevel x = ?cur (muscleGroup x)" if "x \<in> set ?all" for x
    by (rule fatigueLevel_getAllFatigueLevels [OF wf that])
  have none: "?sugg = ''Consider a different muscle group or take a longer rest''"
    if h: "\<forall>h\<in>set ?keys. 30 \<le> ?cur h"
  proof -
    have "30 \<le> fatigueLevel x" if x: "x \<in> set ?all" for x
    proof -
      from x have "muscleGroup x \<in> set (map muscleGroup ?all)" by simp
      with keys have "muscleGroup x \<in> set ?keys" by simp
      with h have "30 \<le> ?cur (muscleGroup x)" by blast
      with level [OF x] show ?thesis by simp
    qed
    then show ?thesis
      by (simp add: nextExerciseSuggestion_getFatigueRecommendations
          getNextExerciseSuggestion_none)
  qed
  have first: "?sugg = ''Consider targeting '' @ mg @ '' (''
              @ number_toString (Math_round (?cur mg)) @ ''% fatigue)''"
    if split: "?keys = pre @ mg # post" and low: "?cur mg < 30"
      and before: "\<forall>h\<in>set pre. ?cur h < 30 \<longrightarrow> ?cur mg < ?cur h"
      and after: "\<forall>h\<in>set post. ?cur h < 30 \<longrightarrow> ?cur mg \<le> ?cur h"
  proof -
    from keys split have "map muscleGroup ?all = pre @ mg # post" by simp
    then obtain us y vs where all: "?all = us @ y # vs"
      and us: "map muscleGroup us = pre" and y: "muscleGroup y = mg"
      and vs: "map muscleGroup vs = post"
      by (auto simp: map_eq_append_conv map_eq_Cons_conv)
    have y_in: "y \<in> set ?all" using all by simp
    have ly: "fatigueLevel y = ?cur mg" using level [OF y_in] y by simp
    have b: "\<forall>x\<in>set us. fatigueLevel x < 30 \<longrightarrow> fatigueLevel y < fatigueLevel x"
    proof
      fix x assume x: "x \<in> set us"
      then have "x \<in> set ?all" using all by simp
      moreover from x us have "muscleGroup x \<in> set pre" by auto
      ultimately show "fatigueLevel x < 30 \<longrightarrow> fatigueLevel y < fatigueLevel x"
        using before level ly by simp
    qed
    have a: "\<forall>x\<in>set vs. fatigueLevel x < 30 \<longrightarrow> fatigueLevel y \<le> fatigueLevel x"
    proof
      fix x assume x: "x \<in> set vs"
      then have "x \<in> set ?all" using all by simp
      moreover from x vs have "muscleGroup x \<in> set post" by auto
      ultimately show "fatigueLevel x < 30 \<longrightarrow> fatigueLevel y \<le> fatigueLevel x"
        using after level ly by simp
    qed
    have "getNextExerciseSuggestion ?all = ''Consider targeting '' @ fatigue_label y"
      using all ly low b a by (intro getNextExerciseSuggestion_first_lowest) simp_all
    then show ?thesis
      using fatigue_label_getAllFatigueLevels [OF wf y_in] y
      by (simp add: nextExerciseSuggestion_getFatigueRecommendations)
  qed
  have ex: "\<exists>pre' mg' post'. ?keys = pre' @ mg' # post' \<and> ?cur mg' < 30 \<and>
           (\<forall>h\<in>set pre'. ?cur h < 30 \<longrightarrow> ?cur mg' < ?cur h) \<and>
           (\<forall>h\<in>set post'. ?cur h < 30 \<longrightarrow> ?cur mg' \<le> ?cur h)"
    if "\<exists>h\<in>set ?keys. ?cur h < 30"
    using first_lowest_exists [of ?keys "\<lambda>h. ?cur h < 30" ?cur] that by simp
  show ?thesis
    using keys keys_updateFatigue [of t factors ?st] none first ex by blast
qed

theorem next_exercise_suggestion_witness:
  "map fst (muscleFatigue
      (run [(0, UpdateFatigue traps_set), (0, UpdateFatigue bench_press)]
           (new_FatigueCalculator 0))) = [''Traps'', ''Chest'']
   \<and> getFatigueLevel 0 ''Traps''
       (run [(0, UpdateFatigue traps_set), (0, UpdateFatigue bench_press)]
            (new_FatigueCalculator 0)) = 17.28
   \<and> getFatigueLevel 0 ''Chest''
       (run [(0, UpdateFatigue traps_set), (0, UpdateFatigue bench_press)]
            (new_FatigueCalculator 0)) = 17.28
   \<and> nextExerciseSuggestion (getFatigueRecommendations 0
       (run [(0, UpdateFatigue traps_set), (0, UpdateFatigue bench_press)]
            (new_FatigueCalculator 0)))
     = ''Consider targeting Traps (17% fatigue)''"
proof -
  let ?calls = "[(0::int, UpdateFatigue traps_set), (0, UpdateFatigue bench_press)]"
  let ?st = "updateFatigue 0 bench_press (updateFatigue 0 traps_set (new_FatigueCalculator 0))"
  have run_eq: "run ?calls (new_FatigueCalculator 0) = ?st" by simp
  have keys: "map fst (muscleFatigue ?st) = [] @ ''Traps'' # [''Chest'']"
    by (simp add: traps_then_chest)
  have traps: "getFatigueLevel 0 ''Traps'' ?st = 17.28"
    by (simp add: traps_then_chest getFatigueLevel_def recovery_def)
  have chest: "getFatigueLevel 0 ''Chest'' ?st = 17.28"
    by (simp add: traps_then_chest getFatigueLevel_def recovery_def)
  have low: "getFatigueLevel 0 ''Traps'' ?st < 30" unfolding traps by simp
  have before: "\<forall>h\<in>set []. getFatigueLevel 0 h ?st < 30 \<longrightarrow>
                  getFatigueLevel 0 ''Traps'' ?st < getFatigueLevel 0 h ?st"
    by simp
  have after: "\<forall>h\<in>set [''Chest'']. getFatigueLevel 0 h ?st < 30 \<longrightarrow>
                  getFatigueLevel 0 ''Traps'' ?st \<le> getFatigueLevel 0 h ?st"
    by (simp add: traps chest)
  from next_exercise_suggestion [of 0 ?calls 0 0 bench_press "[]" "''Traps''" "[''Chest'']",
      unfolded run_eq] keys low before after
  have "nextExerciseSuggestion (getFatigueRecommendations 0 ?st)
          = ''Consider targeting '' @ ''Traps'' @ '' (''
              @ number_toString (Math_round (getFatigueLevel 0 ''Traps'' ?st))
              @ ''% fatigue)''"
    by blast
  then have "nextExerciseSuggestion (getFatigueRecommendations 0 ?st)
          = ''Consider targeting Traps (17% fatigue)''"
    unfolding traps print_17 by simp
  with keys traps chest show ?thesis unfolding run_eq by simp
qed

subsection \<open>C9: the fatigue of an exercise\<close>

text \<open>
  C9. \<open>getExerciseFatigue\<close> returns as primary the current level of the exercise's muscle
  group, as secondary the arithmetic mean of the current levels of the entries of
  \<open>targetMuscles\<close> that differ from that group (0 when the list is absent or has no such
  entry), and as overall 0.7 times the primary plus 0.3 times the secondary.
\<close>

theorem getExerciseFatigue_mean:
  "primaryFatigue (getExerciseFatigue now ex this)
     = getFatigueLevel now (exerciseMuscleGroup ex) this
   \<and> secondaryFatigue (getExerciseFatigue now ex this)
     = (let others = filter (\<lambda>muscle. muscle \<noteq> exerciseMuscleGroup ex)
                       (case targetMuscles ex of None \<Rightarrow> [] | Some muscles \<Rightarrow> muscles)
        in if others = [] then 0
           else sum_list (map (\<lambda>muscle. getFatigueLevel now muscle this) others)
                  / real (length others))
   \<and> overallFatigue (getExerciseFatigue now ex this)
     = 0.7 * primaryFatigue (getExerciseFatigue now ex this)
       + 0.3 * secondaryFatigue (getExerciseFatigue now ex this)"
  by (cases "targetMuscles ex")
     (simp_all add: getExerciseFatigue_def Let_def forEach_targetMuscle_sum)

theorem getExerciseFatigue_mean_witness:
  "getExerciseFatigue 0
     \<lparr>exerciseMuscleGroup = ''Chest'',
      targetMuscles = Some [''Chest'', ''Traps'', ''Triceps'']\<rparr>
     (updateFatigue 0 bench_press (updateFatigue 0 traps_set (new_FatigueCalculator 0)))
   = \<lparr>primaryFatigue = 17.28, secondaryFatigue = 8.64, overallFatigue = 14.688\<rparr>"
proof -
  let ?ex = "\<lparr>exerciseMuscleGroup = ''Chest'',
               targetMuscles = Some [''Chest'', ''Traps'', ''Triceps'']\<rparr>"
  let ?st = "updateFatigue 0 bench_press (updateFatigue 0 traps_set (new_FatigueCalculator 0))"
  have levels: "getFatigueLevel 0 ''Chest'' ?st = 17.28" "getFatigueLevel 0 ''Traps'' ?st = 17.28"
    "getFatigueLevel 0 ''Triceps'' ?st = 0"
    by (simp_all add: traps_then_chest getFatigueLevel_def recovery_def)
  from getExerciseFatigue_mean [of 0 ?ex ?st]
  have "primaryFatigue (getExerciseFatigue 0 ?ex ?st) = 17.28"
    and "secondaryFatigue (getExerciseFatigue 0 ?ex ?st) = 8.64"
    and "overallFatigue (getExerciseFatigue 0 ?ex ?st) = 14.688"
    by (simp_all add: levels)
  then show ?thesis
    by (cases "getExerciseFatigue 0 ?ex ?st") simp
qed

subsection \<open>C10: the frame of one set\<close>

text \<open>
  C10. \<open>updateFatigue\<close> for one muscle group leaves the record of every other group as it
  was, keeps the other entries of the map in their order, and does not change
  \<open>workoutStartTime\<close>.
\<close>

theorem updateFatigue_frame:
  assumes "mg \<noteq> factorsMuscleGroup factors"
  shows "map_of (muscleFatigue (updateFatigue now factors this)) mg
           = map_of (muscleFatigue this) mg
   \<and> filter (\<lambda>p. fst p \<noteq> factorsMuscleGroup factors)
        (muscleFatigue (updateFatigue now factors this))
       = filter (\<lambda>p. fst p \<noteq> factorsMuscleGroup factors) (muscleFatigue this)
   \<and> workoutStartTime (updateFatigue now factors this) = workoutStartTime this"
proof -
  have "filter (\<lambda>p. fst p \<noteq> factorsMuscleGroup factors)
        (muscleFatigue (updateFatigue now factors this))
       = filter (\<lambda>p. fst p \<noteq> factorsMuscleGroup factors) (muscleFatigue this)"
    by (simp add: updateFatigue_def Let_def filter_update_other)
  with assms show ?thesis
    by (simp add: map_of_updateFatigue_other workoutStartTime_updateFatigue)
qed

theorem updateFatigue_frame_witness:
  "''Chest'' \<noteq> factorsMuscleGroup extreme_set
   \<and> map_of (muscleFatigue (updateFatigue 120000 extreme_set
         (updateFatigue 0 bench_press (new_FatigueCalculator 0)))) ''Chest''
     = Some \<lparr>muscleGroup = ''Chest'', fatigueLevel = 17.28, lastExerciseTime = 0,
             totalVolume = 1600, exerciseCount = 1, recoveryRate = 2.5\<rparr>
   \<and> workoutStartTime (updateFatigue 120000 extreme_set
         (updateFatigue 0 bench_press (new_FatigueCalculator 0))) = 0"
proof -
  let ?st = "updateFatigue 0 bench_press (new_FatigueCalculator 0)"
  have h: "''Chest'' \<noteq> factorsMuscleGroup extreme_set" by (simp add: extreme_set_def)
  from updateFatigue_frame [OF h, of 120000 ?st]
  have "map_of (muscleFatigue (updateFatigue 120000 extreme_set ?st)) ''Chest''
          = map_of (muscleFatigue ?st) ''Chest''"
    and "workoutStartTime (updateFatigue 120000 extreme_set ?st) = workoutStartTime ?st"
    by simp_all
  moreover have "map_of (muscleFatigue ?st) ''Chest''
     = Some \<lparr>muscleGroup = ''Chest'', fatigueLevel = 17.28, lastExerciseTime = 0,
             totalVolume = 1600, exerciseCount = 1, recoveryRate = 2.5\<rparr>"
    and "workoutStartTime ?st = 0"
    by (simp_all add: bench_press_once)
  ultimately show ?thesis using h by simp
qed

end
